theory Spec2Isabelle
  imports Complex_Main "HOL-Library.Code_Target_Numeral"
begin

section \<open>The e4b embedding index: data model\<close>

text \<open>
  The library of \<^verbatim>\<open>e4b.cpp\<close> keeps its state in one context object and reads caller
  buffers through raw pointers. The embedding makes the following choices.
  \<^item> A \<^verbatim>\<open>uint32_t\<close> is a \<open>nat\<close>; where the source can wrap, \<open>mod 2 ^ 32\<close> is written
    out. A handle stored in a bucket (\<^verbatim>\<open>std::vector<int>\<close>) is the same \<open>nat\<close>.
  \<^item> A \<^verbatim>\<open>float\<close> is a value of \<open>e4b_float\<close>: a real number, an infinity or a NaN, with
    the arithmetic of IEEE 754 binary32: every sum, product, quotient and square root
    rounds its exact result to the nearest float, ties to even, one operation at a time
    (a product and a sum are not fused). The sign of a zero is not kept; in this program
    every zero divisor is a positive zero.
  \<^item> A \<^verbatim>\<open>const float *\<close> or \<^verbatim>\<open>const char *\<close> buffer is the list of the values
    readable through the pointer; the caller is taken to leave the buffer alone while the
    index holds the pointer. A heap array is the list of its slots.
  \<^item> An access outside an allocation, the read of a slot that was never written, and a
    conversion whose value does not fit the target type, are undefined in C++: the model
    stops with \<open>Undefined\<close>.
  \<^item> The exception \<^verbatim>\<open>std::out_of_range\<close> of \<^verbatim>\<open>std::map::at\<close> is \<open>Out_of_range\<close>.
\<close>

datatype e4b_error = Out_of_range | Undefined

section \<open>Single-precision floats\<close>

datatype e4b_float = Fin real | PInf | NInf | NaN

text \<open>Rounding a real to the nearest integer, a tie going to the even one.\<close>

definition round_even :: "real \<Rightarrow> int" where
  "round_even r =
     (let f = \<lfloor>r\<rfloor> in
      if r - of_int f < 1 / 2 then f
      else if 1 / 2 < r - of_int f then f + 1
      else if even f then f else f + 1)"

text \<open>
  The binary exponent of a magnitude \<open>a\<close>, searched upwards from \<open>e\<close>: the least exponent
  from \<open>e\<close> on with \<open>a < 2 ^ (e + 1)\<close>, and at most \<open>128\<close>. Started at \<open>-126\<close> it is the
  exponent of the binade of \<open>a\<close>, or \<open>-126\<close> for a subnormal magnitude.
\<close>

function bin_exp :: "real \<Rightarrow> int \<Rightarrow> int" where
  "bin_exp a e = (if e < 128 \<and> 2 powi (e + 1) \<le> a then bin_exp a (e + 1) else e)"
  by pat_completeness auto
termination
  by (relation "measure (\<lambda>(a, e). nat (128 - e))") auto

declare bin_exp.simps [simp del]

text \<open>
  Rounding to binary32: 24 significant bits, so the spacing of the floats in the binade
  of exponent \<open>e\<close> is \<open>2 ^ (e - 23)\<close>; a result of magnitude \<open>2 ^ 128\<close> or more is an
  infinity.
\<close>

definition rnd32 :: "real \<Rightarrow> e4b_float" where
  "rnd32 x =
     (let e = bin_exp \<bar>x\<bar> (- 126);
          u = 2 powi (e - 23);
          y = of_int (round_even (x / u)) * u
      in if 2 powi 128 \<le> \<bar>y\<bar> then (if 0 < x then PInf else NInf) else Fin y)"

fun fsgn :: "e4b_float \<Rightarrow> int" where
  "fsgn (Fin x) = (if x < 0 then - 1 else if x = 0 then 0 else 1)"
| "fsgn PInf = 1"
| "fsgn NInf = - 1"
| "fsgn NaN = 0"

definition inf_of_sign :: "int \<Rightarrow> e4b_float" where
  "inf_of_sign s = (if s = 0 then NaN else if 0 < s then PInf else NInf)"

fun fadd :: "e4b_float \<Rightarrow> e4b_float \<Rightarrow> e4b_float" where
  "fadd (Fin x) (Fin y) = rnd32 (x + y)"
| "fadd NaN b = NaN"
| "fadd a NaN = NaN"
| "fadd PInf NInf = NaN"
| "fadd NInf PInf = NaN"
| "fadd PInf b = PInf"
| "fadd a PInf = PInf"
| "fadd NInf b = NInf"
| "fadd a NInf = NInf"

fun fmul :: "e4b_float \<Rightarrow> e4b_float \<Rightarrow> e4b_float" where
  "fmul (Fin x) (Fin y) = rnd32 (x * y)"
| "fmul NaN b = NaN"
| "fmul a NaN = NaN"
| "fmul a b = inf_of_sign (fsgn a * fsgn b)"

text \<open>Division; a zero divisor counts as positive.\<close>

fun fdiv :: "e4b_float \<Rightarrow> e4b_float \<Rightarrow> e4b_float" where
  "fdiv (Fin x) (Fin y) = (if y = 0 then inf_of_sign (fsgn (Fin x)) else rnd32 (x / y))"
| "fdiv NaN b = NaN"
| "fdiv a NaN = NaN"
| "fdiv (Fin x) b = Fin 0"
| "fdiv a (Fin y) = inf_of_sign (fsgn a * (if y < 0 then - 1 else 1))"
| "fdiv a b = NaN"

fun fsqrt :: "e4b_float \<Rightarrow> e4b_float" where
  "fsqrt (Fin x) = (if x < 0 then NaN else rnd32 (sqrt x))"
| "fsqrt PInf = PInf"
| "fsqrt a = NaN"

fun ffloor :: "e4b_float \<Rightarrow> e4b_float" where
  "ffloor (Fin x) = Fin (of_int \<lfloor>x\<rfloor>)"
| "ffloor a = a"

fun fabs :: "e4b_float \<Rightarrow> e4b_float" where
  "fabs (Fin x) = Fin \<bar>x\<bar>"
| "fabs NaN = NaN"
| "fabs a = PInf"

text \<open>The comparisons \<^verbatim>\<open>a < b\<close> and \<^verbatim>\<open>a <= b\<close>; both are false when a NaN is involved.\<close>

fun fless :: "e4b_float \<Rightarrow> e4b_float \<Rightarrow> bool" where
  "fless NaN b = False"
| "fless a NaN = False"
| "fless (Fin x) (Fin y) = (x < y)"
| "fless a NInf = False"
| "fless NInf b = True"
| "fless PInf b = False"
| "fless a PInf = True"

fun fle :: "e4b_float \<Rightarrow> e4b_float \<Rightarrow> bool" where
  "fle NaN b = False"
| "fle a NaN = False"
| "fle (Fin x) (Fin y) = (x \<le> y)"
| "fle NInf b = True"
| "fle a PInf = True"
| "fle a b = False"

definition fgt :: "e4b_float \<Rightarrow> e4b_float \<Rightarrow> bool" where
  "fgt a b = fless b a"

definition fge :: "e4b_float \<Rightarrow> e4b_float \<Rightarrow> bool" where
  "fge a b = fle b a"

text \<open>
  The conversions \<^verbatim>\<open>(int)\<close> and \<^verbatim>\<open>(uint32_t)\<close> of a float truncate towards zero and
  are defined when the truncated value fits the target type; \<^verbatim>\<open>(float)\<close> of a
  \<^verbatim>\<open>uint32_t\<close> rounds.
\<close>

definition float_trunc :: "real \<Rightarrow> int" where
  "float_trunc x = (if 0 \<le> x then \<lfloor>x\<rfloor> else \<lceil>x\<rceil>)"

definition float_to_int :: "e4b_float \<Rightarrow> e4b_error + int" where
  "float_to_int a =
     (case a of
        Fin x \<Rightarrow> if - (2 ^ 31) \<le> float_trunc x \<and> float_trunc x < 2 ^ 31 then Inr (float_trunc x) else Inl Undefined
      | _ \<Rightarrow> Inl Undefined)"

definition float_to_uint32 :: "e4b_float \<Rightarrow> e4b_error + nat" where
  "float_to_uint32 a =
     (case a of
        Fin x \<Rightarrow> if 0 \<le> float_trunc x \<and> float_trunc x < 2 ^ 32 then Inr (nat (float_trunc x)) else Inl Undefined
      | _ \<Rightarrow> Inl Undefined)"

definition uint32_to_float :: "nat \<Rightarrow> e4b_float" where
  "uint32_to_float n = rnd32 (real n)"

section \<open>The context\<close>

type_synonym e4b_similarity_fn_t = "e4b_float list \<Rightarrow> e4b_float list \<Rightarrow> nat \<Rightarrow> e4b_error + e4b_float"

text \<open>
  \<^verbatim>\<open>struct e4b_context\<close> is opaque outside \<^verbatim>\<open>e4b.cpp\<close>, so a hash function supplied
  by the caller can only use the buffer and the length it is given; the built-in
  \<^verbatim>\<open>e4b_lsh\<close> reads the context.
\<close>

datatype e4b_hash_fn_t = E4B_LSH | Custom_hash "e4b_float list \<Rightarrow> nat \<Rightarrow> e4b_error + int list"

record e4b_context_params =
  n_embd :: nat
  n_max :: nat
  similarity_search_target :: e4b_float
  fn_similarity :: e4b_similarity_fn_t
  n_hash :: nat
  n_buckets_width :: nat
  fn_hash :: e4b_hash_fn_t
  n_init_capacity :: int
  grow_ratio :: e4b_float
  use_persistent_storage :: bool
  persistent_storage_folder :: "string option"

text \<open>\<^verbatim>\<open>struct e4b_entry\<close>; its field \<^verbatim>\<open>text\<close> is \<open>entry_text\<close>.\<close>

record e4b_entry =
  entry_text :: string
  embd :: "e4b_float list"
  n_text :: nat

record e4b_query_result_entry =
  idx :: nat
  entry :: e4b_entry
  score :: e4b_float

text \<open>
  \<^verbatim>\<open>struct e4b_query_results\<close>. Its field \<^verbatim>\<open>results\<close> is a pointer to one record:
  \<open>None\<close> is \<^verbatim>\<open>nullptr\<close>, \<open>Some r\<close> the address of a record \<open>r\<close> on the heap.
\<close>

record e4b_query_results =
  results :: "e4b_query_result_entry option"
  n_results :: nat
  total :: nat

record e4b_lsh_context =
  projections :: "e4b_float list list"
  offsets :: "e4b_float list"

text \<open>
  The context after \<^verbatim>\<open>e4b_init\<close>. A slot of \<open>entries\<close> that was allocated and never
  written is \<open>None\<close>. The field \<^verbatim>\<open>size\<close> is \<open>size_ctx\<close>.
\<close>

record e4b_context =
  cparams :: e4b_context_params
  index :: "string \<rightharpoonup> nat list"
  lsh_ctx :: e4b_lsh_context
  entries :: "e4b_entry option list"
  size_ctx :: nat
  capacity :: nat

section \<open>Construction\<close>

text \<open>
  \<^verbatim>\<open>e4b_lsh_context(n_hash, n_embd)\<close>: \<open>n_hash\<close> projection rows of \<open>n_embd\<close> zeros, and
  \<^verbatim>\<open>offsets(n_embd)\<close>, a vector of \<open>n_embd\<close> zeros.
\<close>

definition new_e4b_lsh_context :: "nat \<Rightarrow> nat \<Rightarrow> e4b_lsh_context" where
  "new_e4b_lsh_context nh ne =
     \<lparr>projections = replicate nh (replicate ne (Fin 0)), offsets = replicate ne (Fin 0)\<rparr>"

text \<open>
  The inner loop of \<^verbatim>\<open>e4b_init\<close> over \<open>j\<close>, filling row \<open>i\<close>. The float the normal
  distribution gives for position \<open>(i, j)\<close> is \<open>nd i j\<close>.
\<close>

function init_row :: "(nat \<Rightarrow> nat \<Rightarrow> e4b_float) \<Rightarrow> nat \<Rightarrow> nat \<Rightarrow> nat \<Rightarrow> e4b_float list \<Rightarrow> e4b_error + e4b_float list" where
  "init_row nd ne i j row =
     (if j < ne then
        (if j < length row then init_row nd ne i (Suc j) (row[j := nd i j]) else Inl Undefined)
      else Inr row)"
  by pat_completeness auto
termination
  by (relation "measure (\<lambda>(nd, ne, i, j, row). ne - j)") auto

declare init_row.simps [simp del]

text \<open>
  The outer loop over \<open>i\<close>: row \<open>i\<close> of the projections, then \<^verbatim>\<open>offsets[i]\<close>, whose
  float from the uniform distribution is \<open>ud i\<close>.
\<close>

function init_loop :: "(nat \<Rightarrow> nat \<Rightarrow> e4b_float) \<Rightarrow> (nat \<Rightarrow> e4b_float) \<Rightarrow> nat \<Rightarrow> nat \<Rightarrow> nat \<Rightarrow> e4b_lsh_context
    \<Rightarrow> e4b_error + e4b_lsh_context" where
  "init_loop nd ud nh ne i l =
     (if i < nh then
        (if i < length (projections l) then
           (case init_row nd ne i 0 (projections l ! i) of
              Inl e \<Rightarrow> Inl e
            | Inr row \<Rightarrow>
                (if i < length (offsets l) then
                   init_loop nd ud nh ne (Suc i)
                     (l\<lparr>projections := (projections l)[i := row],
                        offsets := (offsets l)[i := ud i]\<rparr>)
                 else Inl Undefined))
         else Inl Undefined)
      else Inr l)"
  by pat_completeness auto
termination
  by (relation "measure (\<lambda>(nd, ud, nh, ne, i, l). nh - i)") auto

declare init_loop.simps [simp del]

text \<open>
  \<^verbatim>\<open>e4b_init\<close>. The \<^verbatim>\<open>int\<close> field \<open>n_init_capacity\<close> is converted to
  \<^verbatim>\<open>uint32_t\<close>; the entry array has that many unwritten slots.
\<close>

definition e4b_init :: "(nat \<Rightarrow> nat \<Rightarrow> e4b_float) \<Rightarrow> (nat \<Rightarrow> e4b_float) \<Rightarrow> e4b_context_params \<Rightarrow> e4b_error + e4b_context" where
  "e4b_init nd ud cp =
     (let cap = nat (n_init_capacity cp mod 2 ^ 32) in
      case init_loop nd ud (n_hash cp) (n_embd cp) 0 (new_e4b_lsh_context (n_hash cp) (n_embd cp)) of
        Inl e \<Rightarrow> Inl e
      | Inr l \<Rightarrow>
          Inr \<lparr>cparams = cp, index = Map.empty, lsh_ctx = l,
               entries = replicate cap None, size_ctx = 0, capacity = cap\<rparr>)"

section \<open>Hashing\<close>

text \<open>
  The inner loop of \<^verbatim>\<open>e4b_lsh\<close>: \<^verbatim>\<open>dot += embd[j] * projections[i][j]\<close>, a float
  product and a float sum at every step.
\<close>

function lsh_dot :: "e4b_float list \<Rightarrow> e4b_float list \<Rightarrow> nat \<Rightarrow> nat \<Rightarrow> e4b_float \<Rightarrow> e4b_error + e4b_float" where
  "lsh_dot e row n j dot =
     (if j < n then
        (if j < length e \<and> j < length row then lsh_dot e row n (Suc j) (fadd dot (fmul (e ! j) (row ! j)))
         else Inl Undefined)
      else Inr dot)"
  by pat_completeness auto
termination
  by (relation "measure (\<lambda>(e, row, n, j, dot). n - j)") auto

declare lsh_dot.simps [simp del]

text \<open>
  One bit: \<^verbatim>\<open>(int) std::abs(std::floor((dot + offsets[i]) / (float) n_hash))\<close>, then
  \<^verbatim>\<open>hi % 2 == 1\<close>. \<open>hi\<close> is not negative, so the remainder of C is \<open>mod\<close>.
\<close>

definition lsh_bit :: "e4b_float \<Rightarrow> e4b_float \<Rightarrow> nat \<Rightarrow> e4b_error + int" where
  "lsh_bit dot off nh =
     (case float_to_int (fabs (ffloor (fdiv (fadd dot off) (uint32_to_float nh)))) of
        Inl err \<Rightarrow> Inl err
      | Inr hi \<Rightarrow> Inr (if hi mod 2 = 1 then 1 else 0))"

function lsh_loop :: "e4b_context \<Rightarrow> e4b_float list \<Rightarrow> nat \<Rightarrow> nat \<Rightarrow> int list \<Rightarrow> e4b_error + int list" where
  "lsh_loop ctx e n i hash =
     (if i < n_hash (cparams ctx) then
        (if i < length (projections (lsh_ctx ctx)) \<and> i < length (offsets (lsh_ctx ctx)) then
           (case lsh_dot e (projections (lsh_ctx ctx) ! i) n 0 (Fin 0) of
              Inl err \<Rightarrow> Inl err
            | Inr dot \<Rightarrow>
                (case lsh_bit dot (offsets (lsh_ctx ctx) ! i) (n_hash (cparams ctx)) of
                   Inl err \<Rightarrow> Inl err
                 | Inr b \<Rightarrow> lsh_loop ctx e n (Suc i) (hash @ [b])))
         else Inl Undefined)
      else Inr hash)"
  by pat_completeness auto
termination
  by (relation "measure (\<lambda>(ctx, e, n, i, hash). n_hash (cparams ctx) - i)") auto

declare lsh_loop.simps [simp del]

definition e4b_lsh :: "e4b_context \<Rightarrow> e4b_float list \<Rightarrow> nat \<Rightarrow> e4b_error + int list" where
  "e4b_lsh ctx e n = lsh_loop ctx e n 0 []"

text \<open>The call \<^verbatim>\<open>ctx->cparams.fn_hash(ctx, embd, n)\<close>.\<close>

definition call_fn_hash :: "e4b_context \<Rightarrow> e4b_float list \<Rightarrow> nat \<Rightarrow> e4b_error + int list" where
  "call_fn_hash ctx e n =
     (case fn_hash (cparams ctx) of E4B_LSH \<Rightarrow> e4b_lsh ctx e n | Custom_hash f \<Rightarrow> f e n)"

text \<open>
  \<^verbatim>\<open>e4b_internal_hash_to_key\<close>. The constructor \<^verbatim>\<open>std::string key("0", n_hash)\<close>
  copies the first \<open>n_hash\<close> characters found at the address of the literal: \<open>0\<close>, the
  terminating NUL, and then whatever the program image holds behind them. The parameter
  \<open>lit\<close> is the list of characters readable there; reading past it is \<open>Undefined\<close>.
\<close>

function hash_to_key_loop :: "int list \<Rightarrow> nat \<Rightarrow> nat \<Rightarrow> string \<Rightarrow> e4b_error + string" where
  "hash_to_key_loop hash nh i key =
     (if i < nh then
        (if i < length hash \<and> i < length key then
           hash_to_key_loop hash nh (Suc i) (if hash ! i > 0 then key[i := CHR ''1''] else key)
         else Inl Undefined)
      else Inr key)"
  by pat_completeness auto
termination
  by (relation "measure (\<lambda>(hash, nh, i, key). nh - i)") auto

declare hash_to_key_loop.simps [simp del]

definition e4b_internal_hash_to_key :: "string \<Rightarrow> int list \<Rightarrow> nat \<Rightarrow> e4b_error + string" where
  "e4b_internal_hash_to_key lit hash nh =
     (if nh \<le> length lit then hash_to_key_loop hash nh 0 (take nh lit) else Inl Undefined)"

section \<open>The entry store\<close>

text \<open>
  The copy loop of \<^verbatim>\<open>e4b_internal_grow\<close>: \<^verbatim>\<open>entries[i] = ctx->entries[i]\<close> reads
  slot \<open>i\<close> of the old array and writes slot \<open>i\<close> of the new one.
\<close>

function grow_copy :: "e4b_entry option list \<Rightarrow> nat \<Rightarrow> nat \<Rightarrow> e4b_entry option list
    \<Rightarrow> e4b_error + e4b_entry option list" where
  "grow_copy old n i new =
     (if i < n then
        (if i < length old \<and> i < length new then
           (case old ! i of
              None \<Rightarrow> Inl Undefined
            | Some en \<Rightarrow> grow_copy old n (Suc i) (new[i := Some en]))
         else Inl Undefined)
      else Inr new)"
  by pat_completeness auto
termination
  by (relation "measure (\<lambda>(old, n, i, new). n - i)") auto

declare grow_copy.simps [simp del]

text \<open>
  \<^verbatim>\<open>e4b_internal_grow\<close>. In \<^verbatim>\<open>(uint32_t) ctx->cparams.grow_ratio * ctx->capacity\<close> the
  cast applies to the ratio alone: the ratio is truncated towards zero, and the product
  is taken in \<^verbatim>\<open>uint32_t\<close>.
\<close>

definition e4b_internal_grow :: "e4b_context \<Rightarrow> e4b_error + e4b_context \<times> bool" where
  "e4b_internal_grow ctx =
     (if use_persistent_storage (cparams ctx) then Inr (ctx, False)
      else
        (case float_to_uint32 (grow_ratio (cparams ctx)) of
           Inl e \<Rightarrow> Inl e
         | Inr ratio \<Rightarrow>
             (let cap = (ratio * capacity ctx) mod 2 ^ 32 in
              case grow_copy (entries ctx) (size_ctx ctx) 0 (replicate cap None) of
                Inl e \<Rightarrow> Inl e
              | Inr new \<Rightarrow> Inr (ctx\<lparr>capacity := cap, entries := new\<rparr>, True))))"

text \<open>
  \<^verbatim>\<open>e4b_index\<close>. The result is the context after the call and the returned
  \<^verbatim>\<open>uint32_t\<close>; \<^verbatim>\<open>return -1\<close> gives \<open>2 ^ 32 - 1\<close>. \<^verbatim>\<open>ctx->index[key]\<close> creates an
  empty bucket for a key that is not in the map, and \<^verbatim>\<open>push_back\<close> appends to it.
\<close>

definition e4b_index :: "string \<Rightarrow> e4b_context \<Rightarrow> string \<Rightarrow> nat \<Rightarrow> e4b_float list \<Rightarrow> e4b_error + e4b_context \<times> nat" where
  "e4b_index lit ctx txt n_txt e =
     (case call_fn_hash ctx e (n_embd (cparams ctx)) of
        Inl err \<Rightarrow> Inl err
      | Inr hash \<Rightarrow>
     (case e4b_internal_hash_to_key lit hash (n_hash (cparams ctx)) of
        Inl err \<Rightarrow> Inl err
      | Inr key \<Rightarrow>
     (case (if capacity ctx = size_ctx ctx then e4b_internal_grow ctx else Inr (ctx, True)) of
        Inl err \<Rightarrow> Inl err
      | Inr (ctx1, grown) \<Rightarrow>
          if \<not> grown then Inr (ctx1, 2 ^ 32 - 1)
          else
            (let i = size_ctx ctx1 in
             if i < length (entries ctx1) then
               Inr (ctx1\<lparr>size_ctx := (i + 1) mod 2 ^ 32,
                         entries := (entries ctx1)[i := Some \<lparr>entry_text = txt, embd = e, n_text = n_txt\<rparr>],
                         index := (index ctx1)(key \<mapsto> (case index ctx1 key of None \<Rightarrow> [] | Some b \<Rightarrow> b) @ [i])\<rparr>,
                    i)
             else Inl Undefined))))"

section \<open>Similarity and query\<close>

text \<open>
  \<^verbatim>\<open>e4b_cosine_similarity\<close>: one pass accumulating the dot product and both squared
  norms in floats, then the quotient by the product of the two square roots.
\<close>

function cosine_loop :: "e4b_float list \<Rightarrow> e4b_float list \<Rightarrow> nat \<Rightarrow> nat \<Rightarrow> e4b_float \<times> e4b_float \<times> e4b_float
    \<Rightarrow> e4b_error + e4b_float \<times> e4b_float \<times> e4b_float" where
  "cosine_loop a b n i acc =
     (if i < n then
        (if i < length a \<and> i < length b then
           (case acc of (dot, norm1, norm2) \<Rightarrow>
              cosine_loop a b n (Suc i)
                (fadd dot (fmul (a ! i) (b ! i)), fadd norm1 (fmul (a ! i) (a ! i)), fadd norm2 (fmul (b ! i) (b ! i))))
         else Inl Undefined)
      else Inr acc)"
  by pat_completeness auto
termination
  by (relation "measure (\<lambda>(a, b, n, i, acc). n - i)") auto

declare cosine_loop.simps [simp del]

definition e4b_cosine_similarity :: e4b_similarity_fn_t where
  "e4b_cosine_similarity a b n =
     (case cosine_loop a b n 0 (Fin 0, Fin 0, Fin 0) of
        Inl e \<Rightarrow> Inl e
      | Inr (dot, norm1, norm2) \<Rightarrow> Inr (fdiv dot (fmul (fsqrt norm1) (fsqrt norm2))))"

text \<open>
  \<^verbatim>\<open>std::sort\<close> belongs to the standard library in use, and the standard leaves the
  order of equivalent elements open: the sort is a parameter of the query, of type
  \<open>e4b_sort\<close>. It rearranges the vector in place. One instance is the insertion sort
  that libstdc++ runs on a range of at most 16 elements, which keeps equivalent elements
  in their given order.
\<close>

type_synonym e4b_sort =
  "(e4b_query_result_entry \<Rightarrow> e4b_query_result_entry \<Rightarrow> bool)
     \<Rightarrow> e4b_query_result_entry list \<Rightarrow> e4b_query_result_entry list"

fun sort_insert :: "('a \<Rightarrow> 'a \<Rightarrow> bool) \<Rightarrow> 'a \<Rightarrow> 'a list \<Rightarrow> 'a list" where
  "sort_insert cmp x [] = [x]"
| "sort_insert cmp x (y # ys) = (if cmp y x then y # sort_insert cmp x ys else x # y # ys)"

definition insertion_sort :: "('a \<Rightarrow> 'a \<Rightarrow> bool) \<Rightarrow> 'a list \<Rightarrow> 'a list" where
  "insertion_sort cmp xs = foldr (sort_insert cmp) xs []"

text \<open>
  The lambda of \<^verbatim>\<open>std::transform\<close> in \<^verbatim>\<open>e4b_query\<close>, for one handle of the bucket.
  \<^verbatim>\<open>entries->embd\<close> is the \<^verbatim>\<open>embd\<close> field of the first slot of the entry array, and
  the stored score is \<^verbatim>\<open>1 / (1 + similarity)\<close>, a float sum and a float quotient.
\<close>

definition query_result_entry :: "e4b_context \<Rightarrow> e4b_float list \<Rightarrow> nat \<Rightarrow> e4b_error + e4b_query_result_entry" where
  "query_result_entry ctx q i =
     (case entries ctx of
        [] \<Rightarrow> Inl Undefined
      | None # _ \<Rightarrow> Inl Undefined
      | Some first # _ \<Rightarrow>
          (case fn_similarity (cparams ctx) q (embd first) (n_embd (cparams ctx)) of
             Inl err \<Rightarrow> Inl err
           | Inr similarity \<Rightarrow>
               if i < length (entries ctx) then
                 (case entries ctx ! i of
                    None \<Rightarrow> Inl Undefined
                  | Some en \<Rightarrow> Inr \<lparr>idx = i, entry = en, score = fdiv (Fin 1) (fadd (Fin 1) similarity)\<rparr>)
               else Inl Undefined))"

fun query_transform :: "e4b_context \<Rightarrow> e4b_float list \<Rightarrow> nat list \<Rightarrow> e4b_error + e4b_query_result_entry list" where
  "query_transform ctx q [] = Inr []"
| "query_transform ctx q (i # bucket) =
     (case query_result_entry ctx q i of
        Inl err \<Rightarrow> Inl err
      | Inr r \<Rightarrow>
          (case query_transform ctx q bucket of
             Inl err \<Rightarrow> Inl err
           | Inr rs \<Rightarrow> Inr (r # rs)))"

text \<open>
  The selection loop: slot \<open>i\<close> of the sorted vector is stored in the next slot of the
  array \<^verbatim>\<open>results\<close> when its score reaches the threshold. \<open>res\<close> is the list of the
  slots written so far.
\<close>

function query_select :: "e4b_query_result_entry list \<Rightarrow> nat \<Rightarrow> e4b_float \<Rightarrow> nat \<Rightarrow> e4b_query_result_entry list
    \<Rightarrow> e4b_error + e4b_query_result_entry list" where
  "query_select v cap similarity i res =
     (if i < cap then
        (if i < length v then
           query_select v cap similarity (Suc i) (if fge (score (v ! i)) similarity then res @ [v ! i] else res)
         else Inl Undefined)
      else Inr res)"
  by pat_completeness auto
termination
  by (relation "measure (\<lambda>(v, cap, similarity, i, res). cap - i)") auto

declare query_select.simps [simp del]

text \<open>
  \<^verbatim>\<open>e4b_query\<close> up to its last statement. \<open>None\<close> is the early return for an empty
  bucket. Otherwise the value is the pair of the written slots of the local array
  \<^verbatim>\<open>results\<close> (there are \<^verbatim>\<open>n_results\<close> of them, out of \<open>min top_n total\<close> allocated)
  and the local \<^verbatim>\<open>total\<close>. The vector \<^verbatim>\<open>v_results\<close> is built with as many elements as
  the bucket, and \<^verbatim>\<open>std::transform\<close> and \<^verbatim>\<open>std::sort\<close> work on it in place, so
  \<^verbatim>\<open>(uint32_t) v_results.size()\<close> is taken from the vector before the sort. The
  comparator handed to the sort is \<^verbatim>\<open>a->score > b->score\<close>.
\<close>

definition query_selected :: "string \<Rightarrow> e4b_sort \<Rightarrow> e4b_context \<Rightarrow> e4b_float list \<Rightarrow> nat \<Rightarrow> nat \<Rightarrow> e4b_float
    \<Rightarrow> e4b_error + (e4b_query_result_entry list \<times> nat) option" where
  "query_selected lit srt ctx q n_q top_n similarity =
     (case call_fn_hash ctx q n_q of
        Inl err \<Rightarrow> Inl err
      | Inr q_hash \<Rightarrow>
     (case e4b_internal_hash_to_key lit q_hash (n_hash (cparams ctx)) of
        Inl err \<Rightarrow> Inl err
      | Inr key \<Rightarrow>
     (case index ctx key of
        None \<Rightarrow> Inl Out_of_range
      | Some bucket \<Rightarrow>
          if bucket = [] then Inr None
          else
            (case query_transform ctx q bucket of
               Inl err \<Rightarrow> Inl err
             | Inr v0 \<Rightarrow>
                 (let v = srt (\<lambda>a b. fgt (score a) (score b)) v0;
                      tot = length v0 mod 2 ^ 32;
                      cap = min top_n tot
                  in case query_select v cap similarity 0 [] of
                       Inl err \<Rightarrow> Inl err
                     | Inr res \<Rightarrow> Inr (Some (res, tot)))))))"

text \<open>
  \<^verbatim>\<open>e4b_query\<close>. The last statement builds the struct from \<^verbatim>\<open>*results\<close>, the pointer
  held by the first slot of the local array, \<^verbatim>\<open>n_results\<close> and \<^verbatim>\<open>total\<close>: the read of
  the first slot is outside the array when it has no slot, and of an unwritten slot when
  no candidate was stored; the record the struct points to is the first one stored.
\<close>

definition e4b_query :: "string \<Rightarrow> e4b_sort \<Rightarrow> e4b_context \<Rightarrow> e4b_float list \<Rightarrow> nat \<Rightarrow> nat \<Rightarrow> e4b_float
    \<Rightarrow> e4b_error + e4b_query_results" where
  "e4b_query lit srt ctx q n_q top_n similarity =
     (case query_selected lit srt ctx q n_q top_n similarity of
        Inl err \<Rightarrow> Inl err
      | Inr None \<Rightarrow> Inr \<lparr>results = None, n_results = 0, total = 0\<rparr>
      | Inr (Some (res, tot)) \<Rightarrow>
          (case res of
             [] \<Rightarrow> Inl Undefined
           | r # _ \<Rightarrow> Inr \<lparr>results = Some r, n_results = length res, total = tot\<rparr>))"

section \<open>Reachable states\<close>

text \<open>
  The contexts a client can hold: the one \<open>e4b_init\<close> returns, and the one left by a call
  of \<open>e4b_index\<close> that returned. \<open>e4b_query\<close> takes the context as \<^verbatim>\<open>const\<close>.
\<close>

inductive reachable :: "string \<Rightarrow> e4b_context \<Rightarrow> bool" for lit :: string where
  init: "e4b_init nd ud cp = Inr ctx \<Longrightarrow> reachable lit ctx"
| index: "reachable lit ctx \<Longrightarrow> e4b_index lit ctx txt n_txt e = Inr (ctx', h) \<Longrightarrow> reachable lit ctx'"

text \<open>
  The invariant of the store and of the bucket index: the array has \<open>capacity\<close> slots,
  \<open>size\<close> of them in use, and every bucket in the map is a non-empty list of distinct
  handles below \<open>size\<close>.
\<close>

definition store_inv :: "e4b_context \<Rightarrow> bool" where
  "store_inv ctx \<longleftrightarrow>
     length (entries ctx) = capacity ctx \<and> size_ctx ctx \<le> capacity ctx \<and> capacity ctx < 2 ^ 32
     \<and> (\<forall>key bucket. index ctx key = Some bucket \<longrightarrow>
           bucket \<noteq> [] \<and> distinct bucket \<and> (\<forall>h \<in> set bucket. h < size_ctx ctx))"

section \<open>A small index used for the concrete checks\<close>

text \<open>
  The two characters of the literal \<^verbatim>\<open>"0"\<close>; a one-bit, one-dimensional index whose
  projection draw is \<open>1\<close> and whose offset draw is \<open>0\<close>; a similarity function that
  multiplies the first components of its buffers.
\<close>

definition lit0 :: string where
  "lit0 = [CHR ''0'', CHR 0x00]"

definition ex_similarity :: e4b_similarity_fn_t where
  "ex_similarity a b n = (case (a, b) of (x # _, y # _) \<Rightarrow> Inr (fmul x y) | _ \<Rightarrow> Inl Undefined)"

definition ex_params :: e4b_context_params where
  "ex_params = \<lparr>n_embd = 1, n_max = 2, similarity_search_target = Fin (4 / 5), fn_similarity = ex_similarity,
     n_hash = 1, n_buckets_width = 1, fn_hash = E4B_LSH, n_init_capacity = 2, grow_ratio = Fin 2,
     use_persistent_storage = False, persistent_storage_folder = None\<rparr>"

definition ex_entry_a :: e4b_entry where
  "ex_entry_a = \<lparr>entry_text = ''a'', embd = [Fin 1], n_text = 1\<rparr>"

definition ex_entry_b :: e4b_entry where
  "ex_entry_b = \<lparr>entry_text = ''b'', embd = [Fin 3], n_text = 1\<rparr>"

definition ex_ctx0 :: e4b_context where
  "ex_ctx0 = \<lparr>cparams = ex_params, index = Map.empty, lsh_ctx = \<lparr>projections = [[Fin 1]], offsets = [Fin 0]\<rparr>,
     entries = [None, None], size_ctx = 0, capacity = 2\<rparr>"

definition ex_ctx1 :: e4b_context where
  "ex_ctx1 = ex_ctx0\<lparr>index := [''1'' \<mapsto> [0]], entries := [Some ex_entry_a, None], size_ctx := 1\<rparr>"

definition ex_ctx2 :: e4b_context where
  "ex_ctx2 = ex_ctx0\<lparr>index := [''1'' \<mapsto> [0, 1]], entries := [Some ex_entry_a, Some ex_entry_b], size_ctx := 2\<rparr>"

definition ex_persistent_ctx :: e4b_context where
  "ex_persistent_ctx = ex_ctx2\<lparr>cparams := ex_params\<lparr>use_persistent_storage := True\<rparr>\<rparr>"

definition ex_grow_ctx :: e4b_context where
  "ex_grow_ctx = ex_ctx2\<lparr>cparams := ex_params\<lparr>grow_ratio := Fin (3 / 2)\<rparr>\<rparr>"


text \<open>The two records a query with \<open>[1]\<close> creates on the small index, and what it returns.\<close>

definition ex_result_a :: e4b_query_result_entry where
  "ex_result_a = \<lparr>idx = 0, entry = ex_entry_a, score = Fin (1 / 2)\<rparr>"

definition ex_result_b :: e4b_query_result_entry where
  "ex_result_b = \<lparr>idx = 1, entry = ex_entry_b, score = Fin (1 / 2)\<rparr>"

definition ex_query_results :: e4b_query_results where
  "ex_query_results = \<lparr>results = Some ex_result_a, n_results = 2, total = 2\<rparr>"

section \<open>The signature as the specification words it\<close>

text \<open>
  The quantity \<open>v_i = (dot_i + offsets[i]) / hash_count\<close> for a buffer read over its
  first \<open>n\<close> components, in the arithmetic of the program: the dot product is accumulated
  from zero, component after component.
\<close>

definition projected :: "e4b_context \<Rightarrow> e4b_float list \<Rightarrow> nat \<Rightarrow> nat \<Rightarrow> e4b_float" where
  "projected ctx e n i =
     fdiv (fadd (foldl (\<lambda>dot j. fadd dot (fmul (e ! j) (projections (lsh_ctx ctx) ! i ! j))) (Fin 0) [0..<n])
                (offsets (lsh_ctx ctx) ! i))
          (uint32_to_float (n_hash (cparams ctx)))"

text \<open>
  The parity of \<open>floor(|v|)\<close>, the specification's bit, and the parity of \<open>|floor(v)|\<close>;
  \<open>int_range v\<close> says that \<open>|floor(v)|\<close> is a value of \<^verbatim>\<open>int\<close>.
\<close>

definition floor_of_abs_parity :: "e4b_float \<Rightarrow> int" where
  "floor_of_abs_parity v = (case v of Fin x \<Rightarrow> \<lfloor>\<bar>x\<bar>\<rfloor> mod 2 | _ \<Rightarrow> 0)"

definition abs_of_floor_parity :: "e4b_float \<Rightarrow> int" where
  "abs_of_floor_parity v = (case v of Fin x \<Rightarrow> \<bar>\<lfloor>x\<rfloor>\<bar> mod 2 | _ \<Rightarrow> 0)"

definition int_range :: "e4b_float \<Rightarrow> bool" where
  "int_range v = (case v of Fin x \<Rightarrow> \<bar>\<lfloor>x\<rfloor>\<bar> < 2 ^ 31 | _ \<Rightarrow> False)"

definition spec_signature :: "e4b_context \<Rightarrow> e4b_float list \<Rightarrow> int list" where
  "spec_signature ctx e =
     map (\<lambda>i. floor_of_abs_parity (projected ctx e (n_embd (cparams ctx)) i)) [0..<n_hash (cparams ctx)]"

section \<open>Facts about the rounding\<close>

lemma round_even_of_int: "round_even (of_int z) = z"
  by (simp add: round_even_def)

lemma bin_exp_ge: "e \<le> bin_exp a e"
  by (induction a e rule: bin_exp.induct) (subst bin_exp.simps, auto)

lemma bin_exp_lower: "e < bin_exp a e \<Longrightarrow> 2 powi (bin_exp a e) \<le> a"
proof (induction a e rule: bin_exp.induct)
  case (1 a e)
  show ?case
  proof (cases "e < 128 \<and> 2 powi (e + 1) \<le> a")
    case True
    then have eq: "bin_exp a e = bin_exp a (e + 1)"
      by (subst bin_exp.simps) simp
    show ?thesis
    proof (cases "e + 1 < bin_exp a (e + 1)")
      case True
      with "1.IH" \<open>e < 128 \<and> 2 powi (e + 1) \<le> a\<close> eq show ?thesis by simp
    next
      case False
      with bin_exp_ge [of "e + 1" a] have "bin_exp a (e + 1) = e + 1" by simp
      with True eq show ?thesis by simp
    qed
  next
    case False
    then have "bin_exp a e = e"
      by (subst bin_exp.simps) auto
    with "1.prems" show ?thesis by simp
  qed
qed

text \<open>The exponent the search finds, given the binade of the magnitude.\<close>

lemma bin_exp_eq:
  "e0 \<le> e \<Longrightarrow> e < 128 \<Longrightarrow> e = e0 \<or> 2 powi e \<le> a \<Longrightarrow> a < 2 powi (e + 1) \<Longrightarrow> bin_exp a e0 = e"
proof (induction a e0 rule: bin_exp.induct)
  case (1 a e0)
  show ?case
  proof (cases "e0 = e")
    case True
    with "1.prems" show ?thesis
      by (subst bin_exp.simps) simp
  next
    case False
    with "1.prems" have lt: "e0 + 1 \<le> e" and le: "2 powi e \<le> a" by simp_all
    have "(2::real) powi (e0 + 1) \<le> 2 powi e"
      using lt by (intro power_int_increasing) simp_all
    with le have step: "e0 < 128 \<and> 2 powi (e0 + 1) \<le> a"
      using lt "1.prems"(2) by simp
    then have "bin_exp a e0 = bin_exp a (e0 + 1)"
      by (subst bin_exp.simps) simp
    also have "\<dots> = e"
      using step lt le "1.prems"(2,4) by (intro "1.IH") simp_all
    finally show ?thesis .
  qed
qed

text \<open>The float nearest to a real whose binade is known.\<close>

lemma rnd32_binade:
  assumes "- 126 \<le> e" and "e < 128" and "e = - 126 \<or> 2 powi e \<le> \<bar>x\<bar>" and "\<bar>x\<bar> < 2 powi (e + 1)"
    and "\<bar>of_int (round_even (x / 2 powi (e - 23))) * 2 powi (e - 23)\<bar> < (2 powi 128 :: real)"
  shows "rnd32 x = Fin (of_int (round_even (x / 2 powi (e - 23))) * 2 powi (e - 23))"
proof -
  have "bin_exp \<bar>x\<bar> (- 126) = e"
    using assms(1-4) by (intro bin_exp_eq) auto
  with assms(5) show ?thesis
    by (simp add: rnd32_def Let_def not_le)
qed

text \<open>A real with at most 24 significant bits and an exponent in range is a float.\<close>

lemma rnd32_exact:
  assumes m: "\<bar>m\<bar> < 2 ^ 24" and k: "- 149 \<le> k" "k \<le> 104"
  shows "rnd32 (of_int m * 2 powi k) = Fin (of_int m * 2 powi k)"
proof -
  define x :: real where "x = of_int m * 2 powi k"
  define e where "e = bin_exp \<bar>x\<bar> (- 126)"
  define u :: real where "u = 2 powi (e - 23)"
  have ax: "\<bar>x\<bar> = of_int \<bar>m\<bar> * 2 powi k"
    by (simp add: x_def abs_mult)
  have "of_int \<bar>m\<bar> < (2 ^ 24 :: real)"
    using m by (metis of_int_less_iff of_int_numeral of_int_power)
  then have "\<bar>x\<bar> < 2 ^ 24 * 2 powi k"
    unfolding ax by (intro mult_strict_right_mono) simp_all
  also have "(2 ^ 24 :: real) * 2 powi k = 2 powi (k + 24)"
    by (simp add: power_int_add)
  finally have lt: "\<bar>x\<bar> < 2 powi (k + 24)" .
  have le128: "(2::real) powi (k + 24) \<le> 2 powi 128"
    using k by (intro power_int_increasing) simp_all
  have e_le: "e \<le> k + 23"
  proof (cases "- 126 < e")
    case True
    then have "2 powi e \<le> \<bar>x\<bar>"
      unfolding e_def by (rule bin_exp_lower)
    with lt have "(2::real) powi e < 2 powi (k + 24)" by simp
    moreover have "e < k + 24"
    proof (rule ccontr)
      assume "\<not> e < k + 24"
      then have "(2::real) powi (k + 24) \<le> 2 powi e"
        by (intro power_int_increasing) simp_all
      with \<open>(2::real) powi e < 2 powi (k + 24)\<close> show False by simp
    qed
    then show ?thesis by simp
  next
    case False
    moreover have "- 126 \<le> e"
      unfolding e_def by (rule bin_exp_ge)
    ultimately show ?thesis using k by simp
  qed
  define d where "d = nat (k - e + 23)"
  have d: "int d = k - e + 23"
    using e_le by (simp add: d_def)
  have "x / u = of_int m * (2 powi k / 2 powi (e - 23))"
    by (simp add: x_def u_def)
  also have "(2::real) powi k / 2 powi (e - 23) = 2 powi (k - (e - 23))"
    by (simp add: power_int_diff)
  also have "k - (e - 23) = int d"
    using d by simp
  finally have q: "x / u = of_int (m * 2 ^ d)"
    by simp
  have y: "of_int (round_even (x / u)) * u = x"
  proof -
    have "of_int (round_even (x / u)) * u = (x / u) * u"
      unfolding q by (simp only: round_even_of_int)
    also have "\<dots> = x"
      by (simp add: u_def)
    finally show ?thesis .
  qed
  have "\<not> 2 powi 128 \<le> \<bar>x\<bar>"
    using lt le128 by simp
  then show ?thesis
    unfolding rnd32_def Let_def
    using y by (simp add: x_def [symmetric] e_def [symmetric] u_def [symmetric])
qed

lemma rnd32_of_int: "\<bar>m\<bar> < 2 ^ 24 \<Longrightarrow> rnd32 (of_int m) = Fin (of_int m)"
  using rnd32_exact [of m 0] by simp

lemma rnd32_0: "rnd32 0 = Fin 0"
  using rnd32_of_int [of 0] by simp

lemma rnd32_1: "rnd32 1 = Fin 1"
  using rnd32_of_int [of 1] by simp

lemma rnd32_numeral: "numeral n < (2 ^ 24 :: int) \<Longrightarrow> rnd32 (numeral n) = Fin (numeral n)"
  using rnd32_of_int [of "numeral n"] by simp

lemma rnd32_half: "rnd32 (1 / 2) = Fin (1 / 2)"
  using rnd32_exact [of 1 "- 1"] by simp

lemma rnd32_neg_half: "rnd32 (- (1 / 2)) = Fin (- (1 / 2))"
  using rnd32_exact [of "- 1" "- 1"] by simp

text \<open>\<open>2 ^ 24 + 1\<close> is not a float: it lies half-way between two floats and goes to the even one.\<close>

lemma rnd32_tie: "rnd32 16777217 = Fin 16777216"
proof -
  have "round_even (16777217 / 2) = 8388608"
    by (simp add: round_even_def Let_def)
  then show ?thesis
    using rnd32_binade [of 24 16777217] by simp
qed

section \<open>Evaluation on the small index\<close>

lemmas float_eval = rnd32_0 rnd32_1 rnd32_numeral rnd32_half rnd32_neg_half uint32_to_float_def
  float_to_int_def float_to_uint32_def float_trunc_def fgt_def fge_def inf_of_sign_def

lemmas ex_defs = lit0_def ex_similarity_def ex_params_def ex_entry_a_def ex_entry_b_def ex_ctx0_def
  ex_ctx1_def ex_ctx2_def ex_persistent_ctx_def ex_grow_ctx_def ex_result_a_def ex_result_b_def
  ex_query_results_def

lemmas hash_eval = call_fn_hash_def e4b_lsh_def lsh_loop.simps lsh_dot.simps lsh_bit_def
  e4b_internal_hash_to_key_def hash_to_key_loop.simps Let_def float_eval

lemmas query_eval = e4b_query_def query_selected_def query_result_entry_def insertion_sort_def
  query_select.simps

lemmas index_eval = e4b_index_def e4b_internal_grow_def grow_copy.simps

lemma replicate_two: "replicate 2 x = [x, x]"
  by (simp add: numeral_2_eq_2)

text \<open>The small index is what \<open>e4b_init\<close> and two calls of \<open>e4b_index\<close> build.\<close>

lemma ex_init: "e4b_init (\<lambda>i j. Fin 1) (\<lambda>i. Fin 0) ex_params = Inr ex_ctx0"
  by (simp add: e4b_init_def ex_defs new_e4b_lsh_context_def init_loop.simps init_row.simps Let_def replicate_two)

lemma ex_index_a: "e4b_index lit0 ex_ctx0 ''a'' 1 [Fin 1] = Inr (ex_ctx1, 0)"
  by (simp add: ex_defs hash_eval index_eval)

lemma ex_index_b: "e4b_index lit0 ex_ctx1 ''b'' 1 [Fin 3] = Inr (ex_ctx2, 1)"
  by (simp add: ex_defs hash_eval index_eval)

lemma ex_reachable: "reachable lit0 ex_ctx2"
  using reachable.index [OF reachable.index [OF reachable.init [OF ex_init] ex_index_a] ex_index_b] .

text \<open>The same two inserts under persistent storage, and under a growth ratio of \<open>3 / 2\<close>.\<close>

lemma ex_persistent_reachable: "reachable lit0 ex_persistent_ctx"
proof -
  let ?p = "ex_params\<lparr>use_persistent_storage := True\<rparr>"
  have "e4b_init (\<lambda>i j. Fin 1) (\<lambda>i. Fin 0) ?p = Inr (ex_ctx0\<lparr>cparams := ?p\<rparr>)"
    by (simp add: e4b_init_def ex_defs new_e4b_lsh_context_def init_loop.simps init_row.simps Let_def replicate_two)
  moreover have "e4b_index lit0 (ex_ctx0\<lparr>cparams := ?p\<rparr>) ''a'' 1 [Fin 1] = Inr (ex_ctx1\<lparr>cparams := ?p\<rparr>, 0)"
    by (simp add: ex_defs hash_eval index_eval)
  moreover have "e4b_index lit0 (ex_ctx1\<lparr>cparams := ?p\<rparr>) ''b'' 1 [Fin 3] = Inr (ex_persistent_ctx, 1)"
    by (simp add: ex_defs hash_eval index_eval)
  ultimately show ?thesis
    by (blast intro: reachable.intros)
qed

lemma ex_grow_reachable: "reachable lit0 ex_grow_ctx"
proof -
  let ?p = "ex_params\<lparr>grow_ratio := Fin (3 / 2)\<rparr>"
  have "e4b_init (\<lambda>i j. Fin 1) (\<lambda>i. Fin 0) ?p = Inr (ex_ctx0\<lparr>cparams := ?p\<rparr>)"
    by (simp add: e4b_init_def ex_defs new_e4b_lsh_context_def init_loop.simps init_row.simps Let_def replicate_two)
  moreover have "e4b_index lit0 (ex_ctx0\<lparr>cparams := ?p\<rparr>) ''a'' 1 [Fin 1] = Inr (ex_ctx1\<lparr>cparams := ?p\<rparr>, 0)"
    by (simp add: ex_defs hash_eval index_eval)
  moreover have "e4b_index lit0 (ex_ctx1\<lparr>cparams := ?p\<rparr>) ''b'' 1 [Fin 3] = Inr (ex_grow_ctx, 1)"
    by (simp add: ex_defs hash_eval index_eval)
  ultimately show ?thesis
    by (blast intro: reachable.intros)
qed

lemma ex_persistent_hash: "call_fn_hash ex_persistent_ctx [Fin 3] (n_embd (cparams ex_persistent_ctx)) = Inr [1]"
  by (simp add: ex_defs hash_eval)

lemma ex_persistent_key: "e4b_internal_hash_to_key lit0 [1] (n_hash (cparams ex_persistent_ctx)) = Inr ''1''"
  by (simp add: ex_defs hash_eval)

text \<open>
  The query with \<open>[1]\<close>, at most ten results and threshold \<open>0\<close>, under the insertion sort:
  the array the selection loop fills, and the struct returned.
\<close>

lemma ex_selected:
  "query_selected lit0 insertion_sort ex_ctx2 [Fin 1] 1 10 (Fin 0) = Inr (Some ([ex_result_a, ex_result_b], 2))"
  by (simp add: ex_defs hash_eval query_eval)

lemma ex_query: "e4b_query lit0 insertion_sort ex_ctx2 [Fin 1] 1 10 (Fin 0) = Inr ex_query_results"
  unfolding e4b_query_def ex_selected by (simp add: ex_query_results_def)

section \<open>The float operations and the sort on simple inputs\<close>

text \<open>
  The cosine similarity of a vector with itself is \<open>1\<close> (the first case of the
  repository's test), and of two zero vectors a NaN.
\<close>

lemma cosine_same_vector:
  "e4b_cosine_similarity [Fin 3, Fin 4] [Fin 3, Fin 4] 2 = Inr (Fin 1)"
proof -
  have "sqrt 25 = 5"
    by (rule real_sqrt_unique) simp_all
  then show ?thesis
    by (simp add: e4b_cosine_similarity_def cosine_loop.simps float_eval numeral_2_eq_2)
qed

lemma cosine_zero_vector:
  "e4b_cosine_similarity [Fin 0] [Fin 0] 1 = Inr NaN"
  by (simp add: e4b_cosine_similarity_def cosine_loop.simps float_eval)

text \<open>A similarity of \<open>-1\<close> gives the stored score \<open>+\<infinity>\<close>, and the record is created.\<close>

lemma score_infinite:
  "query_result_entry ex_ctx2 [Fin (- 1)] 1 = Inr \<lparr>idx = 1, entry = ex_entry_b, score = PInf\<rparr>"
proof -
  have "rnd32 (- 1) = Fin (- 1)"
    using rnd32_of_int [of "- 1"] by simp
  then show ?thesis
    by (simp add: query_result_entry_def ex_defs float_eval)
qed

text \<open>The stored score is rounded: for a similarity of \<open>2\<close> it is the float next to \<open>1 / 3\<close>.\<close>

lemma score_rounded:
  "fdiv (Fin 1) (fadd (Fin 1) (Fin 2)) = Fin (11184811 / 33554432)"
proof -
  have "round_even (1 / 3 / 2 powi (- 25)) = 11184811"
    by (simp add: round_even_def Let_def)
  then have "rnd32 (1 / 3) = Fin (11184811 / 33554432)"
    using rnd32_binade [of "- 2" "1 / 3"] by simp
  then show ?thesis
    by (simp add: float_eval)
qed

text \<open>
  The insertion sort with the comparator of the query puts a higher score first and keeps
  records of equal score in their order.
\<close>

lemma insertion_sort_descending:
  "insertion_sort (\<lambda>a b. fgt (score a) (score b))
     [ex_result_a, ex_result_b\<lparr>score := Fin (3 / 4)\<rparr>, ex_result_b] =
     [ex_result_b\<lparr>score := Fin (3 / 4)\<rparr>, ex_result_a, ex_result_b]"
  by (simp add: insertion_sort_def fgt_def ex_defs)

section \<open>Persistent mode\<close>

text \<open>
  C7. With \<open>use_persistent_storage\<close> set and \<open>size = capacity\<close>, a call of
  \<open>e4b_index\<close> whose hashing is defined returns \<open>(uint32_t) -1\<close>, the failure value, and
  the context after the call is the context before it: size, capacity, entry array and
  bucket index are all unchanged.
\<close>

theorem persistent_full_index_fails:
  assumes "use_persistent_storage (cparams ctx)"
    and "size_ctx ctx = capacity ctx"
    and "call_fn_hash ctx e (n_embd (cparams ctx)) = Inr hash"
    and "e4b_internal_hash_to_key lit hash (n_hash (cparams ctx)) = Inr key"
  shows "e4b_index lit ctx txt n_txt e = Inr (ctx, 2 ^ 32 - 1)"
  using assms by (simp add: e4b_index_def e4b_internal_grow_def)

theorem persistent_full_index_fails_witness:
  "reachable lit0 ex_persistent_ctx
   \<and> use_persistent_storage (cparams ex_persistent_ctx)
   \<and> size_ctx ex_persistent_ctx = capacity ex_persistent_ctx
   \<and> e4b_index lit0 ex_persistent_ctx ''c'' 1 [Fin 3] = Inr (ex_persistent_ctx, 4294967295)"
proof -
  have p: "use_persistent_storage (cparams ex_persistent_ctx)"
    by (simp add: ex_defs)
  have f: "size_ctx ex_persistent_ctx = capacity ex_persistent_ctx"
    by (simp add: ex_defs)
  from persistent_full_index_fails [OF p f ex_persistent_hash ex_persistent_key, of "''c''" 1]
  show ?thesis using p f ex_persistent_reachable by simp
qed

section \<open>Scoring and ranking\<close>

text \<open>
  C1. The specification asks that the result for a candidate handle \<open>h\<close> carries the score
  \<open>similarity_fn(query, get(h).embedding)\<close>. On the small index, queried with \<open>[1]\<close>, the
  records created for both handles of the bucket carry the score \<open>1 / 2\<close>, that is
  \<open>1 / (1 + similarity)\<close> for the embedding of the first slot of the entry array, while
  the similarity of the query and the embedding of handle \<open>1\<close> is \<open>3\<close> (and that of
  handle \<open>0\<close>, whose record the returned struct points to, is \<open>1\<close>).
\<close>

theorem query_score_ignores_candidate:
  "query_selected lit0 insertion_sort ex_ctx2 [Fin 1] 1 10 (Fin 0) =
     Inr (Some ([\<lparr>idx = 0, entry = ex_entry_a, score = Fin (1 / 2)\<rparr>,
                 \<lparr>idx = 1, entry = ex_entry_b, score = Fin (1 / 2)\<rparr>], 2))
   \<and> e4b_query lit0 insertion_sort ex_ctx2 [Fin 1] 1 10 (Fin 0) =
     Inr \<lparr>results = Some \<lparr>idx = 0, entry = ex_entry_a, score = Fin (1 / 2)\<rparr>, n_results = 2, total = 2\<rparr>
   \<and> fn_similarity (cparams ex_ctx2) [Fin 1] (embd ex_entry_a) (n_embd (cparams ex_ctx2)) = Inr (Fin 1)
   \<and> fn_similarity (cparams ex_ctx2) [Fin 1] (embd ex_entry_b) (n_embd (cparams ex_ctx2)) = Inr (Fin 3)"
  by (simp add: ex_defs hash_eval query_eval)

text \<open>
  C2. The specification asks that an entry returned earlier has a similarity to the query
  at least that of an entry returned later. On the small index, queried with \<open>[1]\<close>, the
  record of handle \<open>0\<close> is stored before the record of handle \<open>1\<close>, and is the one the
  returned struct points to, and their similarities to the query are \<open>1\<close> and \<open>3\<close>.
\<close>

theorem query_order_not_by_similarity:
  "map_sum id (map_option (\<lambda>(res, tot). map idx res))
       (query_selected lit0 insertion_sort ex_ctx2 [Fin 1] 1 10 (Fin 0)) = Inr (Some [0, 1])
   \<and> map_sum id (\<lambda>r. map_option idx (results r))
       (e4b_query lit0 insertion_sort ex_ctx2 [Fin 1] 1 10 (Fin 0)) = Inr (Some 0)
   \<and> fn_similarity (cparams ex_ctx2) [Fin 1] (embd ex_entry_a) (n_embd (cparams ex_ctx2)) = Inr (Fin 1)
   \<and> fn_similarity (cparams ex_ctx2) [Fin 1] (embd ex_entry_b) (n_embd (cparams ex_ctx2)) = Inr (Fin 3)"
  by (simp add: ex_defs hash_eval query_eval)

section \<open>Bucket miss\<close>

text \<open>
  C3. The specification asks that a query whose signature was never inserted returns an
  empty result with \<open>total = 0\<close>. On the freshly initialised small index, whose bucket map
  is empty, the lookup \<^verbatim>\<open>ctx->index.at(key)\<close> throws \<^verbatim>\<open>std::out_of_range\<close>.
\<close>

theorem query_miss_throws:
  "e4b_init (\<lambda>i j. Fin 1) (\<lambda>i. Fin 0) ex_params = Inr ex_ctx0
   \<and> index ex_ctx0 = Map.empty
   \<and> e4b_query lit0 insertion_sort ex_ctx0 [Fin 1] 1 10 (Fin 0) = Inl Out_of_range"
  using ex_init by (simp add: ex_defs hash_eval query_eval)

section \<open>The projector's offsets\<close>

text \<open>
  C6. The specification asks for exactly \<open>hash_count\<close> offsets. The constructor allocates
  \<open>n_embd\<close> of them, whatever \<open>n_hash\<close> is, and \<open>e4b_init\<close> writes \<open>offsets[i]\<close> for every
  \<open>i < n_hash\<close>: with \<open>n_embd = 2\<close> and \<open>n_hash = 3\<close> the third write is outside the vector.
\<close>

theorem init_offsets_allocation:
  "length (offsets (new_e4b_lsh_context nh ne)) = ne
   \<and> e4b_init (\<lambda>i j. Fin 1) (\<lambda>i. Fin 0) (ex_params\<lparr>n_embd := 2, n_hash := 3\<rparr>) = Inl Undefined"
  by (simp add: e4b_init_def ex_defs new_e4b_lsh_context_def init_loop.simps init_row.simps Let_def
      numeral_2_eq_2 numeral_3_eq_3)

section \<open>Growth\<close>

text \<open>
  C9. The specification asks that growth multiplies the capacity by \<open>grow_ratio\<close> and
  keeps \<open>size \<le> capacity\<close>. With \<open>grow_ratio = 3 / 2\<close> and a full store of capacity \<open>2\<close>,
  \<open>e4b_internal_grow\<close> succeeds and leaves the capacity at \<open>2\<close> (the ratio is truncated
  to \<open>1\<close> before the product), and the insert that asked for the growth then writes the
  slot of index \<open>2\<close>, outside the array.
\<close>

theorem grow_truncates_ratio:
  "size_ctx ex_grow_ctx = capacity ex_grow_ctx
   \<and> e4b_internal_grow ex_grow_ctx = Inr (ex_grow_ctx, True)
   \<and> capacity ex_grow_ctx = 2
   \<and> e4b_index lit0 ex_grow_ctx ''c'' 1 [Fin 5] = Inl Undefined"
  by (simp add: ex_defs hash_eval index_eval replicate_two)

section \<open>Selection\<close>

text \<open>
  The selection loop by itself: of the first \<open>cap\<close> slots of the vector it stores those
  whose stored score reaches the threshold, in their order.
\<close>

lemma query_select_filter:
  "cap \<le> length v \<Longrightarrow> i \<le> cap \<Longrightarrow>
   query_select v cap similarity i res =
     Inr (res @ filter (\<lambda>r. fge (score r) similarity) (take (cap - i) (drop i v)))"
proof (induction v cap similarity i res rule: query_select.induct)
  case (1 v cap similarity i res)
  show ?case
  proof (cases "i < cap")
    case True
    let ?res = "if fge (score (v ! i)) similarity then res @ [v ! i] else res"
    have d: "take (cap - i) (drop i v) = v ! i # take (cap - Suc i) (drop (Suc i) v)"
      using True "1.prems" by (metis Cons_nth_drop_Suc Suc_diff_Suc less_le_trans take_Suc_Cons)
    have "query_select v cap similarity i res = query_select v cap similarity (Suc i) ?res"
      using True "1.prems" by (subst query_select.simps) simp
    also have "\<dots> = Inr (?res @ filter (\<lambda>r. fge (score r) similarity) (take (cap - Suc i) (drop (Suc i) v)))"
      using True "1.prems" by (intro "1.IH") auto
    also have "?res @ filter (\<lambda>r. fge (score r) similarity) (take (cap - Suc i) (drop (Suc i) v))
        = res @ filter (\<lambda>r. fge (score r) similarity) (take (cap - i) (drop i v))"
      unfolding d by simp
    finally show ?thesis .
  next
    case False
    with "1.prems" have "i = cap" by simp
    then show ?thesis by (subst query_select.simps) simp
  qed
qed

text \<open>
  C8. The specification asks that every query returns the candidates that are among the
  first \<open>min top_n total\<close> and whose score reaches the threshold, so at most \<open>top_n\<close> of
  them, with \<open>total\<close> the size of the bucket. On the small index, queried with \<open>[1]\<close>:
  with \<open>top_n = 0\<close> and threshold \<open>0\<close> the function reads the first slot of an array of
  no slots; with \<open>top_n = 10\<close> and threshold \<open>3 / 4\<close> both candidates, whose similarities
  to the query are \<open>1\<close> and \<open>3\<close>, fail the test against their stored score \<open>1 / 2\<close>, no slot
  of the array is written, and the function reads the first one.
\<close>

theorem query_selection_undefined:
  "e4b_query lit0 insertion_sort ex_ctx2 [Fin 1] 1 0 (Fin 0) = Inl Undefined
   \<and> query_selected lit0 insertion_sort ex_ctx2 [Fin 1] 1 10 (Fin (3 / 4)) = Inr (Some ([], 2))
   \<and> e4b_query lit0 insertion_sort ex_ctx2 [Fin 1] 1 10 (Fin (3 / 4)) = Inl Undefined
   \<and> fn_similarity (cparams ex_ctx2) [Fin 1] (embd ex_entry_a) (n_embd (cparams ex_ctx2)) = Inr (Fin 1)
   \<and> fn_similarity (cparams ex_ctx2) [Fin 1] (embd ex_entry_b) (n_embd (cparams ex_ctx2)) = Inr (Fin 3)"
  by (simp add: ex_defs hash_eval query_eval)

section \<open>The built-in hash\<close>

lemma lsh_dot_foldl:
  "j \<le> n \<Longrightarrow> n \<le> length e \<Longrightarrow> n \<le> length row \<Longrightarrow>
   lsh_dot e row n j dot = Inr (foldl (\<lambda>d k. fadd d (fmul (e ! k) (row ! k))) dot [j..<n])"
proof (induction e row n j dot rule: lsh_dot.induct)
  case (1 e row n j dot)
  show ?case
  proof (cases "j < n")
    case True
    then have "lsh_dot e row n j dot = lsh_dot e row n (Suc j) (fadd dot (fmul (e ! j) (row ! j)))"
      using "1.prems" by (subst lsh_dot.simps) simp
    also have "\<dots> = Inr (foldl (\<lambda>d k. fadd d (fmul (e ! k) (row ! k))) (fadd dot (fmul (e ! j) (row ! j))) [Suc j..<n])"
      using True "1.prems" by (intro "1.IH") auto
    also have "foldl (\<lambda>d k. fadd d (fmul (e ! k) (row ! k))) (fadd dot (fmul (e ! j) (row ! j))) [Suc j..<n]
        = foldl (\<lambda>d k. fadd d (fmul (e ! k) (row ! k))) dot [j..<n]"
      using True by (simp add: upt_conv_Cons)
    finally show ?thesis .
  next
    case False
    with "1.prems" have "j = n" by simp
    then show ?thesis by (subst lsh_dot.simps) simp
  qed
qed

lemma lsh_bit_parity:
  assumes "int_range (fdiv (fadd dot off) (uint32_to_float nh))"
  shows "lsh_bit dot off nh = Inr (abs_of_floor_parity (fdiv (fadd dot off) (uint32_to_float nh)))"
proof -
  from assms obtain x where v: "fdiv (fadd dot off) (uint32_to_float nh) = Fin x"
    and r: "\<bar>\<lfloor>x\<rfloor>\<bar> < 2 ^ 31"
    by (cases "fdiv (fadd dot off) (uint32_to_float nh)") (simp_all add: int_range_def)
  have "fabs (ffloor (Fin x)) = Fin (of_int \<bar>\<lfloor>x\<rfloor>\<bar>)"
    by (simp flip: of_int_abs)
  moreover have "float_trunc (of_int \<bar>\<lfloor>x\<rfloor>\<bar>) = \<bar>\<lfloor>x\<rfloor>\<bar>"
    unfolding float_trunc_def by (simp only: floor_of_int of_int_0_le_iff abs_ge_zero if_True)
  ultimately have "float_to_int (fabs (ffloor (Fin x))) = Inr \<bar>\<lfloor>x\<rfloor>\<bar>"
    using r by (simp add: float_to_int_def)
  moreover have "(if \<bar>\<lfloor>x\<rfloor>\<bar> mod 2 = 1 then 1 else 0) = \<bar>\<lfloor>x\<rfloor>\<bar> mod 2"
    by auto
  ultimately show ?thesis
    unfolding lsh_bit_def v by (simp add: abs_of_floor_parity_def)
qed

lemma lsh_loop_map:
  assumes "n \<le> length e"
    and "\<forall>i<n_hash (cparams ctx). i < length (projections (lsh_ctx ctx))
           \<and> n \<le> length (projections (lsh_ctx ctx) ! i)
           \<and> i < length (offsets (lsh_ctx ctx))
           \<and> int_range (projected ctx e n i)"
    and "i \<le> n_hash (cparams ctx)"
  shows "lsh_loop ctx e n i hash =
     Inr (hash @ map (\<lambda>i. abs_of_floor_parity (projected ctx e n i)) [i..<n_hash (cparams ctx)])"
  using assms
proof (induction ctx e n i hash rule: lsh_loop.induct)
  case (1 ctx e n i hash)
  show ?case
  proof (cases "i < n_hash (cparams ctx)")
    case True
    let ?row = "projections (lsh_ctx ctx) ! i"
    let ?dot = "foldl (\<lambda>d k. fadd d (fmul (e ! k) (?row ! k))) (Fin 0) [0..<n]"
    let ?b = "abs_of_floor_parity (projected ctx e n i)"
    from True "1.prems"(2) have rng: "i < length (projections (lsh_ctx ctx))" "n \<le> length ?row"
      "i < length (offsets (lsh_ctx ctx))" "int_range (projected ctx e n i)"
      by auto
    have dot: "lsh_dot e ?row n 0 (Fin 0) = Inr ?dot"
      using lsh_dot_foldl [of 0 n e ?row "Fin 0"] "1.prems"(1) rng(2) by simp
    have pr: "projected ctx e n i =
        fdiv (fadd ?dot (offsets (lsh_ctx ctx) ! i)) (uint32_to_float (n_hash (cparams ctx)))"
      by (simp add: projected_def)
    have bit: "lsh_bit ?dot (offsets (lsh_ctx ctx) ! i) (n_hash (cparams ctx)) = Inr ?b"
      using lsh_bit_parity [of ?dot "offsets (lsh_ctx ctx) ! i" "n_hash (cparams ctx)"] rng(4)
      unfolding pr by simp
    have "lsh_loop ctx e n i hash = lsh_loop ctx e n (Suc i) (hash @ [?b])"
      using True rng(1,3) dot bit by (subst lsh_loop.simps) simp
    also have "\<dots> = Inr ((hash @ [?b]) @ map (\<lambda>i. abs_of_floor_parity (projected ctx e n i)) [Suc i..<n_hash (cparams ctx)])"
      using True rng(1,3) dot bit "1.prems" by (intro "1.IH") auto
    also have "(hash @ [?b]) @ map (\<lambda>i. abs_of_floor_parity (projected ctx e n i)) [Suc i..<n_hash (cparams ctx)]
        = hash @ map (\<lambda>i. abs_of_floor_parity (projected ctx e n i)) [i..<n_hash (cparams ctx)]"
      using True by (simp add: upt_conv_Cons)
    finally show ?thesis .
  next
    case False
    with "1.prems" have "i = n_hash (cparams ctx)" by simp
    then show ?thesis by (subst lsh_loop.simps) simp
  qed
qed

text \<open>
  C5, as amended. For a buffer holding at least \<open>n\<close> floats and a projector whose rows
  and offsets cover the accesses, \<open>e4b_lsh\<close> returns, for every hash index \<open>i\<close>, the
  parity of \<open>|floor(v_i)|\<close>, where \<open>v_i = (dot_i + offsets[i]) / n_hash\<close> is computed in
  single precision and \<open>|floor(v_i)|\<close> is a value of \<^verbatim>\<open>int\<close>: the floor is taken before
  the absolute value.
\<close>

theorem lsh_signature_bits:
  assumes "n \<le> length e"
    and "\<forall>i<n_hash (cparams ctx). i < length (projections (lsh_ctx ctx))
           \<and> n \<le> length (projections (lsh_ctx ctx) ! i)
           \<and> i < length (offsets (lsh_ctx ctx))
           \<and> int_range (projected ctx e n i)"
  shows "e4b_lsh ctx e n = Inr (map (\<lambda>i. abs_of_floor_parity (projected ctx e n i)) [0..<n_hash (cparams ctx)])"
  using lsh_loop_map [OF assms, of 0 "[]"] by (simp add: e4b_lsh_def)

theorem lsh_signature_bits_witness:
  "1 \<le> length [Fin (- 1 / 2)]
   \<and> projected ex_ctx0 [Fin (- 1 / 2)] 1 0 = Fin (- 1 / 2)
   \<and> e4b_lsh ex_ctx0 [Fin (- 1 / 2)] 1 = Inr [1]"
proof -
  have a: "1 \<le> length [Fin (- 1 / 2)]" by simp
  have p: "projected ex_ctx0 [Fin (- 1 / 2)] 1 0 = Fin (- 1 / 2)"
    by (simp add: ex_defs projected_def float_eval)
  have b: "\<forall>i<n_hash (cparams ex_ctx0). i < length (projections (lsh_ctx ex_ctx0))
           \<and> 1 \<le> length (projections (lsh_ctx ex_ctx0) ! i)
           \<and> i < length (offsets (lsh_ctx ex_ctx0))
           \<and> int_range (projected ex_ctx0 [Fin (- 1 / 2)] 1 i)"
    using p by (simp add: ex_defs int_range_def)
  have c: "map (\<lambda>i. abs_of_floor_parity (projected ex_ctx0 [Fin (- 1 / 2)] 1 i)) [0..<n_hash (cparams ex_ctx0)] = [1]"
    using p by (simp add: ex_defs abs_of_floor_parity_def)
  from lsh_signature_bits [OF a b] show ?thesis unfolding c using p by simp
qed

text \<open>
  C5 as the specification states it fails: for the embedding \<open>[-1/2]\<close> on the small index,
  \<open>v_0 = -1/2\<close>; \<open>e4b_lsh\<close> gives bit \<open>1\<close> (the floor is \<open>-1\<close>), the specification's formula
  gives \<open>0\<close>.
\<close>

theorem lsh_bit_counterexample:
  "length [Fin (- 1 / 2)] = n_embd (cparams ex_ctx0)
   \<and> e4b_lsh ex_ctx0 [Fin (- 1 / 2)] (n_embd (cparams ex_ctx0)) = Inr [1]
   \<and> spec_signature ex_ctx0 [Fin (- 1 / 2)] = [0]"
  by (simp add: ex_defs hash_eval spec_signature_def projected_def floor_of_abs_parity_def)

text \<open>
  The dot product is accumulated in single precision: with the projection row \<open>[1, 1]\<close>,
  offset \<open>0\<close> and one hash bit, the embedding \<open>[2 ^ 24, 1]\<close> has the dot product \<open>2 ^ 24\<close>,
  not \<open>2 ^ 24 + 1\<close>, and its bit is \<open>0\<close>.
\<close>

lemma lsh_accumulates_in_float:
  "e4b_lsh (ex_ctx0\<lparr>cparams := ex_params\<lparr>n_embd := 2\<rparr>, lsh_ctx := \<lparr>projections = [[Fin 1, Fin 1]], offsets = [Fin 0, Fin 0]\<rparr>\<rparr>)
      [Fin 16777216, Fin 1] 2 = Inr [0]"
proof -
  have "rnd32 16777216 = Fin 16777216"
    using rnd32_exact [of 8388608 1] by simp
  then show ?thesis
    by (simp add: ex_defs hash_eval rnd32_tie numeral_2_eq_2)
qed

section \<open>Insertion\<close>




lemma e4b_index_stored:
  assumes "call_fn_hash ctx e (n_embd (cparams ctx)) = Inr hsh"
    and "e4b_internal_hash_to_key lit hsh (n_hash (cparams ctx)) = Inr key"
    and "capacity ctx = size_ctx ctx \<and> e4b_internal_grow ctx = Inr (ctx1, True)
         \<or> capacity ctx \<noteq> size_ctx ctx \<and> ctx1 = ctx"
    and "size_ctx ctx1 < length (entries ctx1)"
  shows "e4b_index lit ctx txt n_txt e =
     Inr (ctx1\<lparr>size_ctx := (size_ctx ctx1 + 1) mod 2 ^ 32,
              entries := (entries ctx1)[size_ctx ctx1 := Some \<lparr>entry_text = txt, embd = e, n_text = n_txt\<rparr>],
              index := (index ctx1)(key \<mapsto> (case index ctx1 key of None \<Rightarrow> [] | Some b \<Rightarrow> b) @ [size_ctx ctx1])\<rparr>,
          size_ctx ctx1)"
proof (cases "capacity ctx = size_ctx ctx")
  case True
  with assms(3) have "e4b_internal_grow ctx = Inr (ctx1, True)" by simp
  with assms(1,2,4) True show ?thesis by (simp add: e4b_index_def Let_def)
next
  case False
  with assms(3) have "ctx1 = ctx" by simp
  with assms(1,2,4) False show ?thesis by (simp add: e4b_index_def Let_def)
qed

lemma e4b_index_full:
  assumes "call_fn_hash ctx e (n_embd (cparams ctx)) = Inr hsh"
    and "e4b_internal_hash_to_key lit hsh (n_hash (cparams ctx)) = Inr key"
    and "capacity ctx = size_ctx ctx" and "e4b_internal_grow ctx = Inr (c, False)"
  shows "e4b_index lit ctx txt n_txt e = Inr (c, 2 ^ 32 - 1)"
  using assms by (simp add: e4b_index_def Let_def)

text \<open>What a successful call of \<open>e4b_index\<close> did: it failed to grow, or it stored the entry.\<close>

lemma e4b_index_Inr:
  assumes "e4b_index lit ctx txt n_txt e = Inr (c, h)"
  obtains (full) hsh key where
      "call_fn_hash ctx e (n_embd (cparams ctx)) = Inr hsh"
      "e4b_internal_hash_to_key lit hsh (n_hash (cparams ctx)) = Inr key"
      "capacity ctx = size_ctx ctx" "e4b_internal_grow ctx = Inr (c, False)" "h = 2 ^ 32 - 1"
  | (stored) hsh key ctx1 where
      "call_fn_hash ctx e (n_embd (cparams ctx)) = Inr hsh"
      "e4b_internal_hash_to_key lit hsh (n_hash (cparams ctx)) = Inr key"
      "capacity ctx = size_ctx ctx \<and> e4b_internal_grow ctx = Inr (ctx1, True)
         \<or> capacity ctx \<noteq> size_ctx ctx \<and> ctx1 = ctx"
      "size_ctx ctx1 < length (entries ctx1)"
      "h = size_ctx ctx1"
      "c = ctx1\<lparr>size_ctx := (size_ctx ctx1 + 1) mod 2 ^ 32,
              entries := (entries ctx1)[size_ctx ctx1 := Some \<lparr>entry_text = txt, embd = e, n_text = n_txt\<rparr>],
              index := (index ctx1)(key \<mapsto> (case index ctx1 key of None \<Rightarrow> [] | Some b \<Rightarrow> b) @ [size_ctx ctx1])\<rparr>"
proof -
  from assms obtain hsh where hsh: "call_fn_hash ctx e (n_embd (cparams ctx)) = Inr hsh"
    by (cases "call_fn_hash ctx e (n_embd (cparams ctx))") (simp_all add: e4b_index_def Let_def)
  from assms hsh obtain key where key: "e4b_internal_hash_to_key lit hsh (n_hash (cparams ctx)) = Inr key"
    by (cases "e4b_internal_hash_to_key lit hsh (n_hash (cparams ctx))") (simp_all add: e4b_index_def Let_def)
  show thesis
  proof (cases "capacity ctx = size_ctx ctx")
    case True
    with assms hsh key obtain ctx1 grown where g: "e4b_internal_grow ctx = Inr (ctx1, grown)"
      by (cases "e4b_internal_grow ctx") (auto simp: e4b_index_def Let_def)
    show thesis
    proof (cases grown)
      case False
      with hsh key g True have "e4b_index lit ctx txt n_txt e = Inr (ctx1, 2 ^ 32 - 1)"
        by (simp add: e4b_index_full)
      with assms have "c = ctx1" "h = 2 ^ 32 - 1"
        by simp_all
      with hsh key g True False show thesis
        by (intro full) simp_all
    next
      case grown: True
      with assms hsh key g True have inr: "size_ctx ctx1 < length (entries ctx1)"
        by (simp add: e4b_index_def Let_def split: if_splits)
      from hsh key g True grown inr
      have "e4b_index lit ctx txt n_txt e =
         Inr (ctx1\<lparr>size_ctx := (size_ctx ctx1 + 1) mod 2 ^ 32,
              entries := (entries ctx1)[size_ctx ctx1 := Some \<lparr>entry_text = txt, embd = e, n_text = n_txt\<rparr>],
              index := (index ctx1)(key \<mapsto> (case index ctx1 key of None \<Rightarrow> [] | Some b \<Rightarrow> b) @ [size_ctx ctx1])\<rparr>,
            size_ctx ctx1)"
        by (intro e4b_index_stored) simp_all
      with assms have "h = size_ctx ctx1"
        "c = ctx1\<lparr>size_ctx := (size_ctx ctx1 + 1) mod 2 ^ 32,
              entries := (entries ctx1)[size_ctx ctx1 := Some \<lparr>entry_text = txt, embd = e, n_text = n_txt\<rparr>],
              index := (index ctx1)(key \<mapsto> (case index ctx1 key of None \<Rightarrow> [] | Some b \<Rightarrow> b) @ [size_ctx ctx1])\<rparr>"
        by auto
      with hsh key g True grown inr show thesis
        by (intro stored [of hsh key ctx1]) simp_all
    qed
  next
    case False
    with assms hsh key have inr: "size_ctx ctx < length (entries ctx)"
      by (simp add: e4b_index_def Let_def split: if_splits)
    from hsh key False inr
    have "e4b_index lit ctx txt n_txt e =
       Inr (ctx\<lparr>size_ctx := (size_ctx ctx + 1) mod 2 ^ 32,
              entries := (entries ctx)[size_ctx ctx := Some \<lparr>entry_text = txt, embd = e, n_text = n_txt\<rparr>],
              index := (index ctx)(key \<mapsto> (case index ctx key of None \<Rightarrow> [] | Some b \<Rightarrow> b) @ [size_ctx ctx])\<rparr>,
            size_ctx ctx)"
      by (intro e4b_index_stored) simp_all
    with assms have "h = size_ctx ctx"
      "c = ctx\<lparr>size_ctx := (size_ctx ctx + 1) mod 2 ^ 32,
              entries := (entries ctx)[size_ctx ctx := Some \<lparr>entry_text = txt, embd = e, n_text = n_txt\<rparr>],
              index := (index ctx)(key \<mapsto> (case index ctx key of None \<Rightarrow> [] | Some b \<Rightarrow> b) @ [size_ctx ctx])\<rparr>"
      by auto
    with hsh key False inr show thesis
      by (intro stored [of hsh key ctx]) simp_all
  qed
qed

text \<open>The converse: the value of \<open>e4b_index\<close> when nothing is undefined.\<close>




section \<open>The invariant of the store and of the bucket index\<close>

lemma grow_copy_step:
  assumes "grow_copy old n i new = Inr r" and "i < n"
  obtains en where "i < length old" and "i < length new" and "old ! i = Some en"
    and "grow_copy old n (Suc i) (new[i := Some en]) = Inr r"
proof -
  from assms have ok: "i < length old \<and> i < length new"
    by (subst (asm) grow_copy.simps) (simp split: if_splits)
  with assms obtain en where en: "old ! i = Some en"
    by (subst (asm) grow_copy.simps) (cases "old ! i", simp_all)
  with assms ok have "grow_copy old n (Suc i) (new[i := Some en]) = Inr r"
    by (subst (asm) grow_copy.simps) simp
  with ok en that show thesis by blast
qed

lemma grow_copy_length:
  "grow_copy old n i new = Inr r \<Longrightarrow> length r = length new"
proof (induction old n i new rule: grow_copy.induct)
  case (1 old n i new)
  show ?case
  proof (cases "i < n")
    case True
    with "1.prems" obtain en where ok: "i < length old" "i < length new" "old ! i = Some en"
      and rec: "grow_copy old n (Suc i) (new[i := Some en]) = Inr r"
      by (rule grow_copy_step)
    from True ok rec have "length r = length (new[i := Some en])"
      by (intro "1.IH") auto
    then show ?thesis by simp
  next
    case False
    with "1.prems" show ?thesis
      by (subst (asm) grow_copy.simps) simp
  qed
qed

lemma grow_copy_bound:
  "grow_copy old n i new = Inr r \<Longrightarrow> i \<le> length new \<Longrightarrow> n \<le> length new \<or> n \<le> i"
proof (induction old n i new rule: grow_copy.induct)
  case (1 old n i new)
  show ?case
  proof (cases "i < n")
    case True
    with "1.prems"(1) obtain en where ok: "i < length old" "i < length new" "old ! i = Some en"
      and rec: "grow_copy old n (Suc i) (new[i := Some en]) = Inr r"
      by (rule grow_copy_step)
    from True ok rec have "n \<le> length (new[i := Some en]) \<or> n \<le> Suc i"
      by (intro "1.IH") auto
    with ok show ?thesis by auto
  next
    case False
    then show ?thesis by simp
  qed
qed

lemma e4b_internal_grow_False:
  "e4b_internal_grow ctx = Inr (c, False) \<Longrightarrow> c = ctx"
  by (auto simp: e4b_internal_grow_def Let_def split: if_splits sum.splits)

lemma e4b_internal_grow_True:
  assumes "e4b_internal_grow ctx = Inr (c, True)"
  shows "index c = index ctx" and "size_ctx c = size_ctx ctx" and "cparams c = cparams ctx"
    and "lsh_ctx c = lsh_ctx ctx" and "length (entries c) = capacity c"
    and "capacity c < 2 ^ 32" and "size_ctx c \<le> capacity c"
proof -
  from assms obtain ratio where "float_to_uint32 (grow_ratio (cparams ctx)) = Inr ratio"
    by (cases "float_to_uint32 (grow_ratio (cparams ctx))")
      (simp_all add: e4b_internal_grow_def split: if_splits)
  note ratio = this
  define cap where "cap = (ratio * capacity ctx) mod 2 ^ 32"
  from assms ratio obtain new where
    cp: "grow_copy (entries ctx) (size_ctx ctx) 0 (replicate cap None) = Inr new"
    and c: "c = ctx\<lparr>capacity := cap, entries := new\<rparr>"
    by (auto simp: e4b_internal_grow_def Let_def cap_def split: if_splits sum.splits)
  have len: "length new = cap"
    using grow_copy_length [OF cp] by simp
  have bnd: "size_ctx ctx \<le> cap"
    using grow_copy_bound [OF cp] by auto
  show "index c = index ctx" "size_ctx c = size_ctx ctx" "cparams c = cparams ctx" "lsh_ctx c = lsh_ctx ctx"
    by (simp_all add: c)
  show "length (entries c) = capacity c" by (simp add: c len)
  show "capacity c < 2 ^ 32" by (simp add: c cap_def)
  show "size_ctx c \<le> capacity c" by (simp add: c bnd)
qed

lemma store_inv_init:
  assumes "e4b_init nd ud cp = Inr ctx"
  shows "store_inv ctx"
proof -
  from assms obtain l where
    "ctx = \<lparr>cparams = cp, index = Map.empty, lsh_ctx = l,
            entries = replicate (nat (n_init_capacity cp mod 2 ^ 32)) None, size_ctx = 0,
            capacity = nat (n_init_capacity cp mod 2 ^ 32)\<rparr>"
    by (auto simp: e4b_init_def Let_def split: sum.splits)
  moreover have "nat (n_init_capacity cp mod 2 ^ 32) < 2 ^ 32"
    by (simp add: nat_less_iff)
  ultimately show ?thesis by (simp add: store_inv_def)
qed

lemma store_inv_index:
  assumes inv: "store_inv ctx" and ix: "e4b_index lit ctx txt n_txt e = Inr (c, h)"
  shows "store_inv c"
  using ix
proof (cases rule: e4b_index_Inr)
  case (full hsh key)
  then have "c = ctx" by (simp add: e4b_internal_grow_False)
  with inv show ?thesis by simp
next
  case (stored hsh key ctx1)
  let ?s = "size_ctx ctx"
  have ctx1: "index ctx1 = index ctx \<and> size_ctx ctx1 = ?s \<and> length (entries ctx1) = capacity ctx1
      \<and> capacity ctx1 < 2 ^ 32"
    using stored(3) inv e4b_internal_grow_True [of ctx ctx1] by (auto simp: store_inv_def)
  have lt: "?s < capacity ctx1"
    using stored(4) ctx1 by simp
  then have sz: "(?s + 1) mod 2 ^ 32 = Suc ?s"
    using ctx1 by simp
  have old: "bucket \<noteq> [] \<and> distinct bucket \<and> (\<forall>h \<in> set bucket. h < ?s)"
    if "index ctx k = Some bucket" for k bucket
    using inv that by (auto simp: store_inv_def)
  have new: "bucket \<noteq> [] \<and> distinct bucket \<and> (\<forall>h \<in> set bucket. h < Suc ?s)"
    if b: "index c k = Some bucket" for k bucket
  proof (cases "k = key")
    case True
    show ?thesis
    proof (cases "index ctx key")
      case None
      with b True have "bucket = [?s]"
        by (simp add: stored(6) ctx1)
      then show ?thesis by simp
    next
      case (Some b0)
      with b True have "bucket = b0 @ [?s]"
        by (simp add: stored(6) ctx1)
      with old [OF Some] show ?thesis by auto
    qed
  next
    case False
    with b have "index ctx k = Some bucket"
      by (simp add: stored(6) ctx1)
    from old [OF this] show ?thesis by auto
  qed
  have "length (entries c) = capacity c" "size_ctx c = Suc ?s" "capacity c = capacity ctx1"
    using ctx1 sz by (simp_all add: stored(6))
  with lt ctx1 new show ?thesis
    unfolding store_inv_def by auto
qed

lemma reachable_store_inv: "reachable lit ctx \<Longrightarrow> store_inv ctx"
  by (induction rule: reachable.induct) (auto intro: store_inv_init store_inv_index)

lemma store_inv_bucket_length:
  assumes "store_inv ctx" and "index ctx key = Some bucket"
  shows "length bucket < 2 ^ 32"
proof -
  from assms have d: "distinct bucket" and s: "set bucket \<subseteq> {..<size_ctx ctx}"
    and b: "size_ctx ctx < 2 ^ 32"
    by (auto simp: store_inv_def)
  have "length bucket = card (set bucket)"
    using d by (simp add: distinct_card)
  also have "\<dots> \<le> card {..<size_ctx ctx}"
    using s by (intro card_mono) simp_all
  finally show ?thesis using b by simp
qed

text \<open>What a query that reaches its last statement has found.\<close>

lemma query_transform_length:
  "query_transform ctx q bucket = Inr v \<Longrightarrow> length v = length bucket"
  by (induction bucket arbitrary: v) (auto split: sum.splits)

lemma query_selected_None:
  assumes "query_selected lit srt ctx q n_q top_n similarity = Inr None"
  shows "\<exists>key. index ctx key = Some []"
proof -
  from assms obtain q_hash where h: "call_fn_hash ctx q n_q = Inr q_hash"
    by (cases "call_fn_hash ctx q n_q") (simp_all add: query_selected_def)
  from assms h obtain k where k: "e4b_internal_hash_to_key lit q_hash (n_hash (cparams ctx)) = Inr k"
    by (cases "e4b_internal_hash_to_key lit q_hash (n_hash (cparams ctx))") (simp_all add: query_selected_def)
  from assms h k obtain b where b: "index ctx k = Some b"
    by (cases "index ctx k") (simp_all add: query_selected_def)
  have "b = []"
  proof (rule ccontr)
    assume "b \<noteq> []"
    with assms h k b show False
      by (simp add: query_selected_def Let_def split: sum.splits)
  qed
  with b show ?thesis by blast
qed

lemma query_selected_Some:
  assumes "query_selected lit srt ctx q n_q top_n similarity = Inr (Some (res, tot))"
  shows "\<exists>key bucket. index ctx key = Some bucket \<and> bucket \<noteq> [] \<and> tot = length bucket mod 2 ^ 32"
proof -
  from assms obtain q_hash where h: "call_fn_hash ctx q n_q = Inr q_hash"
    by (cases "call_fn_hash ctx q n_q") (simp_all add: query_selected_def)
  from assms h obtain k where k: "e4b_internal_hash_to_key lit q_hash (n_hash (cparams ctx)) = Inr k"
    by (cases "e4b_internal_hash_to_key lit q_hash (n_hash (cparams ctx))") (simp_all add: query_selected_def)
  from assms h k obtain b where b: "index ctx k = Some b"
    by (cases "index ctx k") (simp_all add: query_selected_def)
  from assms h k b have bne: "b \<noteq> []"
    by (auto simp: query_selected_def)
  from assms h k b bne obtain v0 where v0: "query_transform ctx q b = Inr v0"
    by (cases "query_transform ctx q b") (simp_all add: query_selected_def)
  from assms h k b bne v0 have "tot = length v0 mod 2 ^ 32"
    by (simp add: query_selected_def Let_def split: sum.splits)
  with query_transform_length [OF v0] b bne show ?thesis by auto
qed

text \<open>
  C10. In every reachable context a key of the bucket map has a non-empty bucket, so a
  query that returns has found its key with at least one handle: its \<open>total\<close> is positive,
  and the branch of \<open>e4b_query\<close> for an empty bucket is not taken.
\<close>

theorem reachable_buckets_nonempty:
  assumes "reachable lit ctx"
  shows "(index ctx key = Some bucket \<longrightarrow> bucket \<noteq> [])
       \<and> (e4b_query lit srt ctx q n_q top_n similarity = Inr res \<longrightarrow> 0 < total res)"
proof -
  have inv: "store_inv ctx"
    using assms by (rule reachable_store_inv)
  have ne: "b \<noteq> []" if "index ctx k = Some b" for k b
    using inv that by (auto simp: store_inv_def)
  have "0 < total res" if r: "e4b_query lit srt ctx q n_q top_n similarity = Inr res"
  proof (cases "query_selected lit srt ctx q n_q top_n similarity")
    case (Inl err)
    with r show ?thesis by (simp add: e4b_query_def)
  next
    case (Inr sel)
    show ?thesis
    proof (cases sel)
      case None
      with Inr query_selected_None [of lit srt ctx q n_q top_n similarity] ne
      show ?thesis by blast
    next
      case (Some p)
      obtain sl tot where p: "p = (sl, tot)" by (cases p)
      from Inr Some p query_selected_Some [of lit srt ctx q n_q top_n similarity sl tot]
      obtain k b where b: "index ctx k = Some b" "b \<noteq> []" "tot = length b mod 2 ^ 32"
        by blast
      have "length b < 2 ^ 32"
        using inv b(1) by (rule store_inv_bucket_length)
      with b have "0 < tot" by simp
      moreover from r Inr Some p have "total res = tot"
        by (auto simp: e4b_query_def split: list.splits)
      ultimately show ?thesis by simp
    qed
  qed
  with ne show ?thesis by blast
qed

theorem reachable_buckets_nonempty_witness:
  "reachable lit0 ex_ctx2
   \<and> index ex_ctx2 ''1'' = Some [0, 1] \<and> [0, 1 :: nat] \<noteq> []
   \<and> e4b_query lit0 insertion_sort ex_ctx2 [Fin 1] 1 10 (Fin 0) = Inr ex_query_results
   \<and> 0 < total ex_query_results"
proof -
  have b: "index ex_ctx2 ''1'' = Some [0, 1]"
    by (simp add: ex_defs)
  from reachable_buckets_nonempty [OF ex_reachable, of "''1''" "[0, 1]" insertion_sort "[Fin 1]" 1 10 "Fin 0" ex_query_results]
    b ex_reachable ex_query
  show ?thesis by simp
qed

end
